theory Spec2Isabelle
  imports Main
begin

section \<open>The worker: \<open>fibonacci.worker.ts\<close>\<close>

text \<open>
  \<^verbatim>\<open>
  function fib(n: number): number {
    if (n < 2) {
      return n;
    }
    return fib(n - 1) + fib(n - 2);
  }
  \<close>
  A JavaScript \<open>number\<close> that holds an integer is modelled as \<open>int\<close>: the comparison, the
  two subtractions and the addition are exact on integers as long as the values stay below
  \<open>2 ^ 53\<close>, which covers every argument for which the doubly recursive function finishes
  in practice. The recursion is not structural, so the function is defined with its
  termination proof; the measure is the argument itself, cut off at zero. What the
  rounding of large numbers and the bounded call stack do to the recursion is the subject
  of \<open>fib_stack\<close> below.
\<close>

function fib :: "int \<Rightarrow> int" where
  "fib n = (if n < 2 then n else fib (n - 1) + fib (n - 2))"
  by pat_completeness auto
termination
  by (relation "measure nat") auto

declare fib.simps [simp del]

text \<open>
  The same function as an evaluation relation: \<open>fib_returns n r\<close> holds when the call
  \<open>fib(n)\<close> comes back with \<open>r\<close>. A call that never came back would be related to no
  result, and nothing in the relation itself says that a call has only one result.
\<close>

inductive fib_returns :: "int \<Rightarrow> int \<Rightarrow> bool" where
  guard: "n < 2 \<Longrightarrow> fib_returns n n"
| recur: "\<not> n < 2 \<Longrightarrow> fib_returns (n - 1) a \<Longrightarrow> fib_returns (n - 2) b
          \<Longrightarrow> fib_returns n (a + b)"

code_pred fib_returns .

text \<open>
  \<^verbatim>\<open>
  module.exports = (n: number) => {
    return fib(n);
  };
  \<close>
  The function the worker file exports, which the thread pool calls once per task.
\<close>

definition module_exports :: "int \<Rightarrow> int" where
  "module_exports n = fib n"

text \<open>
  The worker keeps no variable between two tasks: a worker that has served the tasks
  \<open>ns\<close> one after the other has produced one result per task, each by a fresh call of
  the exported function.
\<close>

definition worker_session :: "int list \<Rightarrow> int list" where
  "worker_session ns = map module_exports ns"

subsection \<open>The recursion on doubles, with a bounded call stack\<close>

text \<open>
  In the engine \<open>n\<close> is an IEEE 754 double. An integer is a double when it has at most
  53 significant bits; from \<open>2 ^ 53 = 9007199254740992\<close> on, the doubles are spaced 2 apart,
  then 4, and so on. \<open>spacing a\<close> is the distance between neighbouring doubles at the
  magnitude \<open>a\<close>.
\<close>

function spacing :: "int \<Rightarrow> int" where
  "spacing a = (if a < 9007199254740992 then 1 else 2 * spacing (a div 2))"
  by pat_completeness auto
termination
  by (relation "measure nat") auto

declare spacing.simps [simp del]

text \<open>
  The double nearest to a non-negative integer, a tie going to the neighbour with the even
  significand, and the same for any integer by symmetry.
\<close>

definition round_even :: "int \<Rightarrow> int" where
  "round_even a =
     (let q = spacing a; lo = a div q; r = a mod q
      in if 2 * r < q then lo * q
         else if q < 2 * r then (lo + 1) * q
         else if even lo then lo * q else (lo + 1) * q)"

definition to_double :: "int \<Rightarrow> int" where
  "to_double x = (if x < 0 then - round_even (- x) else round_even x)"

text \<open>
  The values a call of \<open>fib\<close> on an integer can return: a sum that leaves the range of the
  doubles becomes an infinity.
\<close>

datatype number = Fin int | PosInfinity | NegInfinity | NaN

definition from_int :: "int \<Rightarrow> number" where
  "from_int x =
     (let r = to_double x
      in if 2 ^ 1024 \<le> r then PosInfinity
         else if r \<le> - (2 ^ 1024) then NegInfinity
         else Fin r)"

text \<open>The operator \<open>+\<close> of \<open>fib(n - 1) + fib(n - 2)\<close>.\<close>

fun js_add :: "number \<Rightarrow> number \<Rightarrow> number" where
  "js_add (Fin a) (Fin b) = from_int (a + b)"
| "js_add NaN y = NaN"
| "js_add x NaN = NaN"
| "js_add PosInfinity NegInfinity = NaN"
| "js_add NegInfinity PosInfinity = NaN"
| "js_add PosInfinity y = PosInfinity"
| "js_add x PosInfinity = PosInfinity"
| "js_add NegInfinity y = NegInfinity"
| "js_add x NegInfinity = NegInfinity"

text \<open>
  The operator \<open>-\<close> of \<open>n - 1\<close> and \<open>n - 2\<close>, on an integer double \<open>n\<close>: the exact
  difference, rounded to a double. The difference of a finite \<open>n\<close> and 1 or 2 is finite.
\<close>

definition js_sub :: "int \<Rightarrow> int \<Rightarrow> int" where
  "js_sub n k = to_double (n - k)"

text \<open>
  \<open>fib\<close> as the engine runs it. The first argument is the number of nested activations
  that the call stack still admits, a quantity of the engine and not of the source: a call
  that finds none left throws \<open>RangeError\<close> (maximum call stack size exceeded), and the
  exception of a recursive call ends the calling activation too. The left operand of the
  sum is evaluated first.
\<close>

datatype exception = RangeError

fun fib_stack :: "nat \<Rightarrow> int \<Rightarrow> exception + number" where
  "fib_stack 0 n = Inl RangeError"
| "fib_stack (Suc d) n =
     (if n < 2 then Inr (Fin n)
      else case fib_stack d (js_sub n 1) of
             Inl e \<Rightarrow> Inl e
           | Inr a \<Rightarrow> (case fib_stack d (js_sub n 2) of
                         Inl e \<Rightarrow> Inl e
                       | Inr b \<Rightarrow> Inr (js_add a b)))"

section \<open>The endpoint: \<open>FibonacciController\<close>\<close>

text \<open>
  \<^verbatim>\<open>
  fibonacciWorker = new Piscina({ filename: resolve(__dirname, 'fibonacci.worker.js') });

  @Get()
  fibonacci(@Query('n') n: number = 10): Promise<number> {
    return this.fibonacciWorker.run(n);
  }
  \<close>
  The pool's \<open>run\<close> hands its argument to the function exported by the worker file and
  settles the returned promise with what that function returns; \<open>piscina_run\<close> is that
  settled value. The query parameter is \<open>None\<close> when the request has no \<open>n\<close>: the
  handler then receives \<open>undefined\<close> and the default of the parameter applies.
\<close>

definition piscina_run :: "int \<Rightarrow> int" where
  "piscina_run n = module_exports n"

definition fibonacci :: "int option \<Rightarrow> int" where
  "fibonacci q = (let n = (case q of None \<Rightarrow> 10 | Some v \<Rightarrow> v) in piscina_run n)"

section \<open>The dispatch host: \<open>fibonacci-worker.host.ts\<close>\<close>

subsection \<open>Messages, promises and the state of the host\<close>

text \<open>
  The host posts \<open>{ n, id }\<close> to the worker thread and listens for \<open>{ id, result }\<close> on
  the thread's \<open>message\<close> event. The promise that \<open>firstValueFrom\<close> hands to the caller
  is pending until the first value comes through the pipe. The only failure the host code
  can meet is a \<open>TypeError\<close>, when \<open>this.worker\<close> is still undefined.
\<close>

record task =
  task_n :: int
  task_id :: string

record reply =
  reply_id :: string
  reply_result :: int

datatype error = TypeError

datatype promise = Pending | Resolved int | Rejected error

datatype thread = Running | Terminated

text \<open>
  One subscription per call of \<open>run\<close>: the identifier its filter compares with, and the
  state of the promise the caller awaits. A subscription that has let its first value
  through is unsubscribed, which is the same as its promise not being pending any more.
\<close>

record subscription =
  uniqueId :: string
  outcome :: promise

text \<open>
  The state the class keeps and the effects it has had: \<open>worker\<close> is the field
  \<open>this.worker\<close> (\<open>None\<close> before \<open>onApplicationBootstrap\<close>, and \<open>message$\<close> is defined
  exactly when it is), \<open>posted\<close> the tasks handed to a running thread, oldest first, and
  \<open>calls\<close> the subscriptions on \<open>message$\<close>, one per call of \<open>run\<close>, oldest first; the
  caller of the \<open>k\<close>-th call holds the promise at position \<open>k\<close>. A call that threw before
  it could subscribe is kept in the list with its rejected promise.
\<close>

record host =
  worker :: "thread option"
  posted :: "task list"
  calls :: "subscription list"

definition FibonacciWorkerHost :: host where
  "FibonacciWorkerHost = \<lparr>worker = None, posted = [], calls = []\<rparr>"

text \<open>
  \<^verbatim>\<open>
  onApplicationBootstrap() {
    this.worker = new Worker(join(__dirname, 'fibonacci.worker.js'));
    this.message$ = fromEvent(this.worker, 'message') as unknown as Observable<...>;
  }
  \<close>
\<close>

definition onApplicationBootstrap :: "host \<Rightarrow> host" where
  "onApplicationBootstrap h = h\<lparr>worker := Some Running\<rparr>"

text \<open>
  \<^verbatim>\<open>
  async onApplicationShutdown(signal?: string) {
    await this.worker.terminate();
  }
  \<close>
  Nothing but the thread is touched. Before the bootstrap the member access throws.
\<close>

definition onApplicationShutdown :: "host \<Rightarrow> error + host" where
  "onApplicationShutdown h =
     (case worker h of
        None \<Rightarrow> Inl TypeError
      | Some w \<Rightarrow> Inr (h\<lparr>worker := Some Terminated\<rparr>))"

subsection \<open>\<open>run\<close>\<close>

text \<open>
  \<^verbatim>\<open>
  async run(n: number) {
    const uniqueId = randomUUID();
    this.worker.postMessage({ n, id: uniqueId });
    return firstValueFrom(
      this.message$.pipe(
        filter(({ id }) => id === uniqueId),
        map(({ result }) => result),
      ),
    );
  }
  \<close>
  The identifier that \<open>randomUUID\<close> returns is the parameter \<open>u\<close> of the model. The two effects
  of the body are listed in the order of its statements; \<open>run\<close> performs them one after
  the other without giving control back to the event loop in between, so that no
  \<open>message\<close> event is handled between them. A message posted to a thread that has been
  terminated is dropped. \<open>firstValueFrom\<close> subscribes at once.
\<close>

datatype effect = PostMessage task | FirstValueFrom string

definition run_effects :: "int \<Rightarrow> string \<Rightarrow> effect list" where
  "run_effects n u =
     [PostMessage \<lparr>task_n = n, task_id = u\<rparr>, FirstValueFrom u]"

fun perform :: "host \<Rightarrow> effect \<Rightarrow> host" where
  "perform h (PostMessage t) =
     (if worker h = Some Running then h\<lparr>posted := posted h @ [t]\<rparr> else h)"
| "perform h (FirstValueFrom u) =
     h\<lparr>calls := calls h @ [\<lparr>uniqueId = u, outcome = Pending\<rparr>]\<rparr>"

definition run :: "int \<Rightarrow> string \<Rightarrow> host \<Rightarrow> host" where
  "run n u h =
     (case worker h of
        None \<Rightarrow> h\<lparr>calls := calls h @ [\<lparr>uniqueId = u, outcome = Rejected TypeError\<rparr>]\<rparr>
      | Some w \<Rightarrow> foldl perform h (run_effects n u))"

text \<open>
  The pipe of one subscription applied to one message: the filter on the identifier, then
  the projection to the result.
\<close>

definition pipe :: "string \<Rightarrow> reply \<Rightarrow> int option" where
  "pipe u m = map_option reply_result (if reply_id m = u then Some m else None)"

text \<open>
  What \<open>firstValueFrom\<close> does with a message: a pending subscription whose pipe lets the
  message through resolves its promise with the value and unsubscribes; any other
  subscription is left as it is.
\<close>

definition take_first :: "reply \<Rightarrow> subscription \<Rightarrow> subscription" where
  "take_first m s =
     (case outcome s of
        Pending \<Rightarrow> (case pipe (uniqueId s) m of
                      None \<Rightarrow> s
                    | Some r \<Rightarrow> s\<lparr>outcome := Resolved r\<rparr>)
      | Resolved v \<Rightarrow> s
      | Rejected e \<Rightarrow> s)"

text \<open>The thread emits one \<open>message\<close> event: every subscription sees it.\<close>

definition on_message :: "reply \<Rightarrow> host \<Rightarrow> host" where
  "on_message m h = h\<lparr>calls := map (take_first m) (calls h)\<rparr>"

text \<open>The subscriptions still listening: the table of pending requests.\<close>

definition pending_table :: "host \<Rightarrow> subscription list" where
  "pending_table h = filter (\<lambda>s. outcome s = Pending) (calls h)"

definition settled :: "subscription \<Rightarrow> bool" where
  "settled s = (outcome s \<noteq> Pending)"

text \<open>
  Whether a sequence of effects starts listening before it sends: some
  \<open>FirstValueFrom\<close> stands before the first \<open>PostMessage\<close>.
\<close>

fun is_post :: "effect \<Rightarrow> bool" where
  "is_post (PostMessage t) = True"
| "is_post (FirstValueFrom u) = False"

definition listens_before_sending :: "effect list \<Rightarrow> bool" where
  "listens_before_sending es = (takeWhile (\<lambda>e. \<not> is_post e) es \<noteq> [])"

subsection \<open>The message handler of the worker thread\<close>

text \<open>
  \<^verbatim>\<open>
  // parentPort?.on('message', ({ n, id }: { n: number; id: string }) => {
  //   const result = fib(n);
  //   parentPort?.postMessage({ result, id });
  // });
  \<close>
  The listener that would answer the host. In the worker file it stands commented out
  beside the export for the thread pool, so that the thread which the host starts on the
  file registers no listener and posts no message at all. \<open>parentPort_on_message t\<close> is
  the message the commented-out listener describes for the task \<open>t\<close>; it serves as an
  example of a message that carries the identifier of \<open>t\<close>.
\<close>

definition parentPort_on_message :: "task \<Rightarrow> reply" where
  "parentPort_on_message t =
     (let result = fib (task_n t) in \<lparr>reply_id = task_id t, reply_result = result\<rparr>)"

subsection \<open>Executions\<close>

text \<open>
  What happens on the control thread, in the order it happens: a caller calls \<open>run\<close>, or
  the thread's \<open>message\<close> event fires. Calls and messages interleave freely.
\<close>

datatype event = Call int string | Message reply

fun step :: "host \<Rightarrow> event \<Rightarrow> host" where
  "step h (Call n u) = run n u h"
| "step h (Message m) = on_message m h"

fun exec :: "event list \<Rightarrow> host \<Rightarrow> host" where
  "exec [] h = h"
| "exec (e # es) h = exec es (step h e)"


subsection \<open>Correlation of calls and replies\<close>

text \<open>The task that \<open>run\<close> posts for a call with input \<open>fst c\<close> and identifier \<open>snd c\<close>.\<close>

definition mk_task :: "int \<times> string \<Rightarrow> task" where
  "mk_task c = \<lparr>task_n = fst c, task_id = snd c\<rparr>"

text \<open>
  What the pipe of \<open>run\<close> promises, read off the sequence of events alone: the result
  carried by the first message with the identifier \<open>u\<close> among the events \<open>es\<close>, if there
  is one.
\<close>

fun first_reply :: "string \<Rightarrow> event list \<Rightarrow> int option" where
  "first_reply u [] = None"
| "first_reply u (Call n v # es) = first_reply u es"
| "first_reply u (Message m # es) =
     (if reply_id m = u then Some (reply_result m) else first_reply u es)"

text \<open>
  The promise of a subscription once the events \<open>es\<close> have happened: a pending one is
  resolved by the first message with its own identifier and by no other.
\<close>

definition after :: "event list \<Rightarrow> subscription \<Rightarrow> promise" where
  "after es s =
     (case outcome s of
        Pending \<Rightarrow> (case first_reply (uniqueId s) es of
                      None \<Rightarrow> Pending
                    | Some r \<Rightarrow> Resolved r)
      | Resolved v \<Rightarrow> Resolved v
      | Rejected e \<Rightarrow> Rejected e)"




text \<open>Whether a shutdown succeeds and leaves no promise pending.\<close>

definition shutdown_settles_all :: "host \<Rightarrow> bool" where
  "shutdown_settles_all h =
     (case onApplicationShutdown h of
        Inl e \<Rightarrow> False
      | Inr h' \<Rightarrow> list_all settled (calls h'))"

section \<open>Properties of the worker\<close>

lemma fib_guard: "n < 2 \<Longrightarrow> fib n = n"
  by (simp add: fib.simps)

lemma fib_recur: "\<not> n < 2 \<Longrightarrow> fib n = fib (n - 1) + fib (n - 2)"
  by (subst fib.simps) simp

lemma fib_returns_fib: "fib_returns n (fib n)"
proof (induction n rule: fib.induct)
  case (1 n)
  show ?case
  proof (cases "n < 2")
    case True
    then show ?thesis by (simp add: fib_guard fib_returns.guard)
  next
    case False
    with 1 have "fib_returns (n - 1) (fib (n - 1))" and "fib_returns (n - 2) (fib (n - 2))"
      by simp_all
    with False have "fib_returns n (fib (n - 1) + fib (n - 2))"
      by (rule fib_returns.recur)
    with False show ?thesis by (simp add: fib_recur)
  qed
qed

lemma fib_returns_unique: "fib_returns n r \<Longrightarrow> fib_returns n r' \<Longrightarrow> r' = r"
proof (induction arbitrary: r' rule: fib_returns.induct)
  case (guard n)
  from guard.prems guard.hyps show ?case
    by (cases rule: fib_returns.cases) simp_all
next
  case (recur n a b)
  from recur.prems show ?case
  proof (cases rule: fib_returns.cases)
    case guard
    with recur.hyps show ?thesis by simp
  next
    case (recur a' b')
    with recur.IH show ?thesis by simp
  qed
qed

text \<open>
  C6. The exported compute function gives 55 at 10, 0 at 0 and 1 at 1.
\<close>

theorem compute_reference_values:
  "module_exports 10 = 55 \<and> module_exports 0 = 0 \<and> module_exports 1 = 1"
  by (simp add: module_exports_def fib.simps)

text \<open>
  C9. Below the guard, negative numbers included, \<open>fib\<close> hands its argument back
  unchanged.
\<close>

theorem fib_below_two: "n < 2 \<Longrightarrow> fib n = n \<and> module_exports n = n"
  by (simp add: module_exports_def fib_guard)

theorem fib_below_two_witness:
  "(-7::int) < 2 \<and> fib (-7) = -7 \<and> module_exports (-7) = -7"
  using fib_below_two [of "-7"] by simp

text \<open>
  C7. The compute function is deterministic and keeps nothing between tasks: two
  evaluations of \<open>fib\<close> on the same input come back with the same output, which is the
  value of the exported function, and what a worker returns for a task does not depend on
  the tasks it has served before.
\<close>

theorem compute_deterministic:
  assumes "fib_returns n r" and "fib_returns n r'"
  shows "r' = r \<and> r = module_exports n \<and>
         last (worker_session (before @ [n])) = last (worker_session (before' @ [n]))"
proof -
  from assms have "r' = r"
    by (rule fib_returns_unique)
  moreover from fib_returns_fib assms(1) have "r = fib n"
    by (rule fib_returns_unique)
  then have "r = module_exports n"
    by (simp add: module_exports_def)
  ultimately show ?thesis
    by (simp add: worker_session_def)
qed

theorem compute_deterministic_witness:
  "fib_returns 3 2 \<and> module_exports 3 = 2 \<and>
   last (worker_session ([10, 0] @ [3])) = last (worker_session ([] @ [3]))"
proof -
  have "fib_returns 1 1" and "fib_returns 0 0"
    by (simp_all add: fib_returns.guard)
  then have two: "fib_returns 2 (1 + 0)"
    using fib_returns.recur [of 2 1 0] by simp
  with \<open>fib_returns 1 1\<close> have three: "fib_returns 3 (1 + 0 + 1)"
    using fib_returns.recur [of 3 "1 + 0" 1] by simp
  then have r: "fib_returns 3 2" by simp
  from compute_deterministic [OF r r, of "[10, 0]" "[]"] r show ?thesis
    by simp
qed

subsection \<open>Termination\<close>

lemma round_even_exact: "a < 9007199254740992 \<Longrightarrow> round_even a = a"
  by (simp add: round_even_def spacing.simps)

lemma to_double_exact: "\<bar>x\<bar> < 9007199254740992 \<Longrightarrow> to_double x = x"
proof (cases "x < 0")
  case True
  assume "\<bar>x\<bar> < 9007199254740992"
  with True have "- x < 9007199254740992" by simp
  with True show ?thesis by (simp add: to_double_def round_even_exact)
next
  case False
  assume "\<bar>x\<bar> < 9007199254740992"
  with False have "x < 9007199254740992" by simp
  with False show ?thesis by (simp add: to_double_def round_even_exact)
qed

lemma js_sub_exact:
  "2 \<le> n \<Longrightarrow> n \<le> 9007199254740992 \<Longrightarrow> 0 < k \<Longrightarrow> k \<le> 2 \<Longrightarrow> js_sub n k = n - k"
  by (simp add: js_sub_def to_double_exact)

lemma fib_stack_returns:
  "n \<le> 9007199254740992 \<Longrightarrow> n \<le> int d \<Longrightarrow> 0 < d \<Longrightarrow> \<exists>r. fib_stack d n = Inr r"
proof (induction d arbitrary: n)
  case 0
  then show ?case by simp
next
  case (Suc d)
  show ?case
  proof (cases "n < 2")
    case True
    then show ?thesis by simp
  next
    case False
    with Suc.prems have s1: "js_sub n 1 = n - 1" and s2: "js_sub n 2 = n - 2"
      by (simp_all add: js_sub_exact)
    from False Suc.prems have "0 < d" by simp
    with False Suc.prems Suc.IH [of "n - 1"] obtain a where a: "fib_stack d (n - 1) = Inr a"
      by auto
    from False Suc.prems \<open>0 < d\<close> Suc.IH [of "n - 2"] obtain b where b: "fib_stack d (n - 2) = Inr b"
      by auto
    from False s1 s2 a b show ?thesis by simp
  qed
qed

lemma fib_stack_overflow:
  "2 \<le> n \<Longrightarrow> n \<le> 9007199254740992 \<Longrightarrow> int d < n \<Longrightarrow> fib_stack d n = Inl RangeError"
proof (induction d arbitrary: n)
  case 0
  then show ?case by simp
next
  case (Suc d)
  then have s1: "js_sub n 1 = n - 1"
    by (simp add: js_sub_exact)
  have "fib_stack d (n - 1) = Inl RangeError"
  proof (cases "2 \<le> n - 1")
    case True
    with Suc.prems show ?thesis by (intro Suc.IH) simp_all
  next
    case False
    with Suc.prems have "d = 0" by simp
    then show ?thesis by simp
  qed
  with Suc.prems s1 show ?case by simp
qed

lemma fib_stack_stuck:
  "2 \<le> n \<Longrightarrow> js_sub n 1 = n \<Longrightarrow> fib_stack d n = Inl RangeError"
  by (induction d) simp_all

lemma js_sub_stuck: "js_sub 9007199254740996 1 = 9007199254740996"
  by (simp add: js_sub_def to_double_def round_even_def spacing.simps)

text \<open>
  C8 as stated: \<open>fib\<close> terminates on every integer input, each recursive call strictly
  decreasing \<open>n\<close>. It fails at the double \<open>2 ^ 53 + 4\<close>: there \<open>n - 1\<close> rounds back to
  \<open>n\<close>, the first recursive call repeats its caller, and whatever the call stack admits,
  the call ends in \<open>RangeError\<close> and returns nothing.
\<close>

theorem fib_stack_never_returns:
  "to_double 9007199254740996 = 9007199254740996 \<and>
   js_sub 9007199254740996 1 = 9007199254740996 \<and>
   \<not> (\<exists>d r. fib_stack d 9007199254740996 = Inr r)"
proof -
  have "to_double 9007199254740996 = 9007199254740996"
    by (simp add: to_double_def round_even_def spacing.simps)
  moreover have "fib_stack d 9007199254740996 = Inl RangeError" for d
    by (rule fib_stack_stuck) (simp_all add: js_sub_stuck)
  ultimately show ?thesis
    by (simp add: js_sub_stuck)
qed

text \<open>
  C8, amended. On every integer input up to \<open>2 ^ 53\<close>, zero and the negative integers
  included, \<open>fib\<close> terminates when the call stack admits \<open>n\<close> nested calls: below 2 the
  guard returns \<open>n\<close> in the first activation; from 2 on, each recursive call has an
  argument strictly smaller than \<open>n\<close> and not below 0, so that every chain of calls
  reaches the guard, and the call returns when the stack admits at least \<open>n\<close>
  activations; with fewer it throws \<open>RangeError\<close> instead of returning.
\<close>

theorem fib_stack_terminates:
  assumes "n \<le> 9007199254740992"
  shows "(n < 2 \<longrightarrow> fib_stack (Suc d) n = Inr (Fin n)) \<and>
         (2 \<le> n \<longrightarrow> 0 \<le> js_sub n 2 \<and> js_sub n 2 < js_sub n 1 \<and> js_sub n 1 < n) \<and>
         (2 \<le> n \<longrightarrow> n \<le> int d \<longrightarrow> (\<exists>r. fib_stack d n = Inr r)) \<and>
         (2 \<le> n \<longrightarrow> int d < n \<longrightarrow> fib_stack d n = Inl RangeError)"
proof -
  have "fib_stack (Suc d) n = Inr (Fin n)" if "n < 2"
    using that by simp
  moreover have "0 \<le> js_sub n 2 \<and> js_sub n 2 < js_sub n 1 \<and> js_sub n 1 < n" if "2 \<le> n"
    using that assms by (simp add: js_sub_exact)
  moreover have "\<exists>r. fib_stack d n = Inr r" if "2 \<le> n" and "n \<le> int d"
    using that assms by (intro fib_stack_returns) simp_all
  moreover have "fib_stack d n = Inl RangeError" if "2 \<le> n" and "int d < n"
    using that assms by (intro fib_stack_overflow)
  ultimately show ?thesis by blast
qed

theorem fib_stack_terminates_witness:
  "(6::int) \<le> 9007199254740992 \<and>
   fib_stack (Suc 0) (- 7) = Inr (Fin (- 7)) \<and>
   js_sub 6 2 = 4 \<and> js_sub 6 1 = 5 \<and>
   fib_stack 6 6 = Inr (Fin 8) \<and>
   fib_stack 5 6 = Inl RangeError"
proof -
  have v: "fib_stack 6 6 = Inr (Fin 8)"
    by code_simp
  have s: "js_sub 6 2 = 4" "js_sub 6 1 = 5"
    by (simp_all add: js_sub_exact)
  from fib_stack_terminates [of "- 7" 0] have "fib_stack (Suc 0) (- 7) = Inr (Fin (- 7))"
    by simp
  moreover from fib_stack_terminates [of 6 5] have "fib_stack 5 6 = Inl RangeError"
    by simp
  moreover from fib_stack_terminates [of 6 6] have "\<exists>r. fib_stack 6 6 = Inr r"
    by simp
  ultimately show ?thesis using v s by simp
qed

section \<open>Properties of the endpoint\<close>

text \<open>
  C10. Without the query parameter \<open>n\<close> the endpoint takes 10 as its input: the request
  computes \<open>fib(10)\<close>.
\<close>

theorem fibonacci_default:
  "fibonacci None = fib 10 \<and> fibonacci None = fibonacci (Some 10) \<and> fibonacci None = 55"
  by (simp add: fibonacci_def piscina_run_def module_exports_def fib.simps)

section \<open>Properties of the dispatch host\<close>

lemma run_running:
  "worker h = Some Running \<Longrightarrow>
   run n u h = h\<lparr>posted := posted h @ [\<lparr>task_n = n, task_id = u\<rparr>],
                 calls := calls h @ [\<lparr>uniqueId = u, outcome = Pending\<rparr>]\<rparr>"
  by (simp add: run_def run_effects_def)

lemma on_message_fields [simp]:
  "worker (on_message m h) = worker h"
  "posted (on_message m h) = posted h"
  "calls (on_message m h) = map (take_first m) (calls h)"
  by (simp_all add: on_message_def)

lemma take_first_uniqueId [simp]: "uniqueId (take_first m s) = uniqueId s"
  by (simp add: take_first_def pipe_def split: promise.splits)

lemma take_first_settled: "outcome s \<noteq> Pending \<Longrightarrow> take_first m s = s"
  by (cases "outcome s") (simp_all add: take_first_def)

lemma take_first_other: "reply_id m \<noteq> uniqueId s \<Longrightarrow> take_first m s = s"
  by (simp add: take_first_def pipe_def split: promise.splits)

lemma take_first_match:
  "outcome s = Pending \<Longrightarrow> reply_id m = uniqueId s \<Longrightarrow>
   take_first m s = s\<lparr>outcome := Resolved (reply_result m)\<rparr>"
  by (simp add: take_first_def pipe_def)

lemma fib_10: "fib 10 = 55"
  by (simp add: fib.simps)

lemma take_first_twice:
  "reply_id m' = reply_id m \<Longrightarrow> take_first m' (take_first m s) = take_first m s"
proof (cases "outcome s = Pending \<and> reply_id m = uniqueId s")
  case True
  then have "outcome (take_first m s) \<noteq> Pending"
    by (simp add: take_first_match)
  then show ?thesis by (rule take_first_settled)
next
  case False
  assume "reply_id m' = reply_id m"
  with False show ?thesis
    by (metis take_first_other take_first_settled)
qed

lemma calls_run: "\<exists>s. calls (run n u h) = calls h @ [s]"
  by (cases "worker h") (simp_all add: run_def run_effects_def)

lemma exec_keeps_settled:
  "k < length (calls h) \<Longrightarrow> settled (calls h ! k) \<Longrightarrow>
   k < length (calls (exec tr h)) \<and> calls (exec tr h) ! k = calls h ! k"
proof (induction tr arbitrary: h)
  case Nil
  then show ?case by simp
next
  case (Cons e tr)
  have "k < length (calls (step h e)) \<and> calls (step h e) ! k = calls h ! k"
  proof (cases e)
    case (Call n u)
    obtain s where "calls (run n u h) = calls h @ [s]"
      using calls_run by blast
    with Cons.prems Call show ?thesis by (simp add: nth_append)
  next
    case (Message m)
    with Cons.prems show ?thesis
      by (simp add: settled_def take_first_settled)
  qed
  with Cons.prems Cons.IH [of "step h e"] show ?case by simp
qed

lemma worker_run [simp]: "worker (run n u h) = worker h"
  by (cases "worker h") (simp_all add: run_def run_effects_def)


lemma after_Nil [simp]: "after [] s = outcome s"
  by (simp add: after_def split: promise.splits)

lemma after_Call [simp]: "after (Call n u # es) s = after es s"
  by (simp add: after_def split: promise.splits)










text \<open>
  C3. A reply whose identifier is not in the table of pending requests changes nothing:
  the host, and with it every pending promise, is as it was before, and handling the reply
  raises no error.
\<close>

theorem orphan_reply_dropped:
  assumes "reply_id m \<notin> set (map uniqueId (pending_table h))"
  shows "on_message m h = h \<and> pending_table (on_message m h) = pending_table h"
proof -
  have "take_first m s = s" if "s \<in> set (calls h)" for s
  proof (cases "outcome s = Pending")
    case True
    with that have "s \<in> set (pending_table h)"
      by (simp add: pending_table_def)
    with assms have "reply_id m \<noteq> uniqueId s" by auto
    then show ?thesis by (rule take_first_other)
  next
    case False
    then show ?thesis by (rule take_first_settled)
  qed
  then have "map (take_first m) (calls h) = calls h"
    by (simp add: map_idI)
  then have "on_message m h = h"
    by (simp add: on_message_def)
  then show ?thesis by simp
qed

theorem orphan_reply_dropped_witness:
  "reply_id \<lparr>reply_id = ''a'', reply_result = 99\<rparr> \<notin>
     set (map uniqueId (pending_table
       (exec [Call 10 ''a'', Message \<lparr>reply_id = ''a'', reply_result = 55\<rparr>, Call 3 ''b'']
          (onApplicationBootstrap FibonacciWorkerHost)))) \<and>
   on_message \<lparr>reply_id = ''a'', reply_result = 99\<rparr>
       (exec [Call 10 ''a'', Message \<lparr>reply_id = ''a'', reply_result = 55\<rparr>, Call 3 ''b'']
          (onApplicationBootstrap FibonacciWorkerHost)) =
     \<lparr>worker = Some Running,
      posted = [\<lparr>task_n = 10, task_id = ''a''\<rparr>, \<lparr>task_n = 3, task_id = ''b''\<rparr>],
      calls = [\<lparr>uniqueId = ''a'', outcome = Resolved 55\<rparr>,
               \<lparr>uniqueId = ''b'', outcome = Pending\<rparr>]\<rparr>"
proof -
  let ?h = "exec [Call 10 ''a'', Message \<lparr>reply_id = ''a'', reply_result = 55\<rparr>, Call 3 ''b'']
          (onApplicationBootstrap FibonacciWorkerHost)"
  have h: "?h = \<lparr>worker = Some Running,
      posted = [\<lparr>task_n = 10, task_id = ''a''\<rparr>, \<lparr>task_n = 3, task_id = ''b''\<rparr>],
      calls = [\<lparr>uniqueId = ''a'', outcome = Resolved 55\<rparr>,
               \<lparr>uniqueId = ''b'', outcome = Pending\<rparr>]\<rparr>"
    by (simp add: onApplicationBootstrap_def FibonacciWorkerHost_def run_def run_effects_def
        on_message_def take_first_def pipe_def)
  have o: "reply_id \<lparr>reply_id = ''a'', reply_result = 99\<rparr> \<notin> set (map uniqueId (pending_table ?h))"
    unfolding h by (simp add: pending_table_def)
  from orphan_reply_dropped [OF o] h o show ?thesis by simp
qed

text \<open>
  C4. A promise is settled at most once: after the first reply with some identifier has
  been handled, a further reply with the same identifier is a no-op, and a promise that
  is settled keeps its value through any later calls and replies.
\<close>

theorem settled_at_most_once:
  "(reply_id m' = reply_id m \<longrightarrow> on_message m' (on_message m h) = on_message m h) \<and>
   (\<forall>k < length (calls g). settled (calls g ! k) \<longrightarrow> calls (exec tr g) ! k = calls g ! k)"
proof -
  have "on_message m' (on_message m h) = on_message m h" if "reply_id m' = reply_id m"
    using that by (simp add: on_message_def take_first_twice)
  then show ?thesis using exec_keeps_settled by blast
qed

theorem settled_at_most_once_witness:
  "on_message \<lparr>reply_id = ''a'', reply_result = 0\<rparr>
     (on_message \<lparr>reply_id = ''a'', reply_result = 55\<rparr>
        (run 10 ''a'' (onApplicationBootstrap FibonacciWorkerHost))) =
   on_message \<lparr>reply_id = ''a'', reply_result = 55\<rparr>
        (run 10 ''a'' (onApplicationBootstrap FibonacciWorkerHost)) \<and>
   calls (exec [Message \<lparr>reply_id = ''a'', reply_result = 0\<rparr>, Call 3 ''a'',
                Message \<lparr>reply_id = ''a'', reply_result = 2\<rparr>]
            (on_message \<lparr>reply_id = ''a'', reply_result = 55\<rparr>
               (run 10 ''a'' (onApplicationBootstrap FibonacciWorkerHost)))) ! 0 =
     \<lparr>uniqueId = ''a'', outcome = Resolved 55\<rparr>"
proof -
  let ?h = "on_message \<lparr>reply_id = ''a'', reply_result = 55\<rparr>
               (run 10 ''a'' (onApplicationBootstrap FibonacciWorkerHost))"
  let ?tr = "[Message \<lparr>reply_id = ''a'', reply_result = 0\<rparr>, Call 3 ''a'',
                Message \<lparr>reply_id = ''a'', reply_result = 2\<rparr>]"
  note t = settled_at_most_once [of "\<lparr>reply_id = ''a'', reply_result = 0\<rparr>"
      "\<lparr>reply_id = ''a'', reply_result = 55\<rparr>"
      "run 10 ''a'' (onApplicationBootstrap FibonacciWorkerHost)" ?h ?tr]
  have c: "calls ?h = [\<lparr>uniqueId = ''a'', outcome = Resolved 55\<rparr>]"
    by (simp add: onApplicationBootstrap_def FibonacciWorkerHost_def run_def run_effects_def
        on_message_def take_first_def pipe_def)
  then have k: "0 < length (calls ?h)" and s: "settled (calls ?h ! 0)"
    by (simp_all add: settled_def)
  from t have "on_message \<lparr>reply_id = ''a'', reply_result = 0\<rparr> ?h = ?h"
    by simp
  moreover from t k s have "calls (exec ?tr ?h) ! 0 = calls ?h ! 0"
    by blast
  with c have "calls (exec ?tr ?h) ! 0 = \<lparr>uniqueId = ''a'', outcome = Resolved 55\<rparr>"
    by simp
  ultimately show ?thesis by blast
qed

text \<open>
  C2 as stated: every call pending at shutdown is settled once shutdown completes. It
  fails for a host with one call in flight.
\<close>

theorem shutdown_leaves_pending:
  "\<not> shutdown_settles_all (run 10 ''a'' (onApplicationBootstrap FibonacciWorkerHost))"
  by (simp add: shutdown_settles_all_def onApplicationShutdown_def run_def run_effects_def
      onApplicationBootstrap_def FibonacciWorkerHost_def settled_def)

text \<open>
  C2, amended. Shutting down a host that has been started terminates the worker thread
  and nothing else: every promise, pending or settled, is left exactly as it was, so the
  table of pending requests after the shutdown is the one before it and no promise has
  been rejected by the shutdown.
\<close>

theorem shutdown_only_terminates:
  assumes "worker h = Some w"
  shows "\<exists>h'. onApplicationShutdown h = Inr h' \<and> worker h' = Some Terminated \<and>
           calls h' = calls h \<and> posted h' = posted h \<and> pending_table h' = pending_table h"
  using assms by (simp add: onApplicationShutdown_def pending_table_def)

theorem shutdown_only_terminates_witness:
  "worker (run 10 ''a'' (onApplicationBootstrap FibonacciWorkerHost)) = Some Running \<and>
   (\<exists>h'. onApplicationShutdown (run 10 ''a'' (onApplicationBootstrap FibonacciWorkerHost))
            = Inr h' \<and>
          worker h' = Some Terminated \<and>
          pending_table h' = [\<lparr>uniqueId = ''a'', outcome = Pending\<rparr>])"
proof -
  let ?h = "run 10 ''a'' (onApplicationBootstrap FibonacciWorkerHost)"
  have w: "worker ?h = Some Running"
    by (simp add: run_def run_effects_def onApplicationBootstrap_def FibonacciWorkerHost_def)
  have p: "pending_table ?h = [\<lparr>uniqueId = ''a'', outcome = Pending\<rparr>]"
    by (simp add: pending_table_def run_def run_effects_def onApplicationBootstrap_def
        FibonacciWorkerHost_def)
  from shutdown_only_terminates [OF w] p w show ?thesis
    by auto
qed

text \<open>
  C5 as stated: \<open>run\<close> starts listening strictly before it sends the task. It fails: the
  first effect of \<open>run\<close> is the send.
\<close>

theorem run_sends_first:
  "\<not> listens_before_sending (run_effects 10 ''a'')"
  by (simp add: listens_before_sending_def run_effects_def)

text \<open>
  C5, amended. On a running host, \<open>run\<close> first sends the task \<open>{n, id}\<close> to the worker
  and then subscribes to the replies with that identifier, the subscription table being
  unchanged at the moment of the send; both happen in the one step of \<open>run\<close>, so that
  the reply to the task, even when it is the very next event, finds the subscription and
  resolves the call.
\<close>

theorem run_sends_then_listens:
  assumes "worker h = Some Running"
  shows "run_effects n u = [PostMessage (mk_task (n, u)), FirstValueFrom u] \<and>
         calls (perform h (PostMessage (mk_task (n, u)))) = calls h \<and>
         run n u h = perform (perform h (PostMessage (mk_task (n, u)))) (FirstValueFrom u) \<and>
         calls (on_message (parentPort_on_message (mk_task (n, u))) (run n u h)) ! length (calls h)
           = \<lparr>uniqueId = u, outcome = Resolved (fib n)\<rparr>"
  using assms
  by (simp add: run_def run_effects_def mk_task_def parentPort_on_message_def
      take_first_def pipe_def nth_append)

theorem run_sends_then_listens_witness:
  "worker (onApplicationBootstrap FibonacciWorkerHost) = Some Running \<and>
   run_effects 10 ''a'' = [PostMessage \<lparr>task_n = 10, task_id = ''a''\<rparr>, FirstValueFrom ''a''] \<and>
   calls (on_message \<lparr>reply_id = ''a'', reply_result = 55\<rparr>
            (run 10 ''a'' (onApplicationBootstrap FibonacciWorkerHost))) ! 0
     = \<lparr>uniqueId = ''a'', outcome = Resolved 55\<rparr>"
proof -
  let ?h = "onApplicationBootstrap FibonacciWorkerHost"
  have w: "worker ?h = Some Running" and c: "calls ?h = []"
    by (simp_all add: onApplicationBootstrap_def FibonacciWorkerHost_def)
  have m: "parentPort_on_message (mk_task (10, ''a'')) = \<lparr>reply_id = ''a'', reply_result = 55\<rparr>"
    by (simp add: parentPort_on_message_def mk_task_def fib_10)
  note t = run_sends_then_listens [OF w, of 10 "''a''"]
  from t have "run_effects 10 ''a'' = [PostMessage (mk_task (10, ''a'')), FirstValueFrom ''a'']"
    by blast
  then have e: "run_effects 10 ''a'' =
      [PostMessage \<lparr>task_n = 10, task_id = ''a''\<rparr>, FirstValueFrom ''a'']"
    by (simp add: mk_task_def)
  from t have "calls (on_message (parentPort_on_message (mk_task (10, ''a'')))
      (run 10 ''a'' ?h)) ! length (calls ?h) = \<lparr>uniqueId = ''a'', outcome = Resolved (fib 10)\<rparr>"
    by blast
  then have "calls (on_message \<lparr>reply_id = ''a'', reply_result = 55\<rparr> (run 10 ''a'' ?h)) ! 0
      = \<lparr>uniqueId = ''a'', outcome = Resolved 55\<rparr>"
    unfolding m c fib_10 by simp
  with w e show ?thesis by blast
qed

text \<open>
  When \<open>randomUUID\<close> gave two calls in flight the same identifier, the first message with
  it would resolve both: that a message with a call's identifier belongs to that call
  rests on the identifiers being different.
\<close>

lemma collision_resolves_both:
  "map outcome (calls (exec [Call 10 ''a'', Call 3 ''a'',
        Message \<lparr>reply_id = ''a'', reply_result = 55\<rparr>]
      (onApplicationBootstrap FibonacciWorkerHost))) = [Resolved 55, Resolved 55]"
  by (simp add: onApplicationBootstrap_def FibonacciWorkerHost_def run_def run_effects_def
      on_message_def take_first_def pipe_def)

end
